theory Spec2Isabelle
  imports Main
begin

section \<open>Text and characters\<close>

text \<open>
  The converter works on Python \<open>str\<close> values: sequences of Unicode code points. A text is
  modelled as a list of code points (natural numbers); \<open>str\<close> embeds an ASCII literal.
\<close>

type_synonym ustr = "nat list"

definition str :: "string \<Rightarrow> ustr" where
  "str s = map of_char s"

text \<open>
  The code points for which Python's \<open>str.isspace\<close> holds; the regular-expression class
  \<open>\s\<close> of a \<open>str\<close> pattern and \<open>str.strip()\<close> both use this set.
\<close>

definition is_space :: "nat \<Rightarrow> bool" where
  "is_space c = (c \<in> set [9, 10, 11, 12, 13, 28, 29, 30, 31, 32, 133, 160, 5760,
     8192, 8193, 8194, 8195, 8196, 8197, 8198, 8199, 8200, 8201, 8202,
     8232, 8233, 8239, 8287, 12288])"

text \<open>\<open>str.strip()\<close> without arguments: drop leading and trailing whitespace.\<close>

definition strip :: "ustr \<Rightarrow> ustr" where
  "strip s = rev (dropWhile is_space (rev (dropWhile is_space s)))"

text \<open>
  \<open>str.replace(old, new)\<close>: the non-overlapping occurrences of \<open>old\<close>, found from left to
  right, are replaced by \<open>new\<close>; the inserted text is not scanned again.
\<close>

function replace_str :: "ustr \<Rightarrow> ustr \<Rightarrow> ustr \<Rightarrow> ustr" where
  "replace_str old new [] = (if old = [] then new else [])"
| "replace_str old new (c # cs) =
     (if old = [] then new @ c # replace_str old new cs
      else if take (length old) (c # cs) = old
           then new @ replace_str old new (drop (length old) (c # cs))
           else c # replace_str old new cs)"
  by pat_completeness auto
termination
  by (relation "measure (\<lambda>(old, new, s). length s)") auto

section \<open>Regular expressions\<close>

text \<open>
  The patterns of the converter are sequences of literal characters, character classes,
  repetitions of one character class (greedy or lazy, with a lower bound and no upper bound)
  and at most one capturing group. The matcher below is the backtracking matcher of Python's
  \<open>re\<close> restricted to these forms: a greedy repetition first takes as many characters as it
  can and gives them back one by one, a lazy one first takes as few as it may and takes one
  more each time the rest of the pattern fails.
\<close>

datatype cls = Lit char | AnyOf string | NotOf string | Space | Dot

datatype greed = Greedy | Lazy

datatype atom = One cls | Rep cls nat greed | GroupOpen | GroupClose

text \<open>
  The code points that match an ASCII pattern character under \<open>re.IGNORECASE\<close>: both cases
  of a letter and, for \<open>i\<close>, \<open>s\<close> and \<open>k\<close>, the four non-ASCII letters that Python folds to
  them (U+0130, U+0131, U+017F, U+212A).
\<close>

definition variants :: "nat \<Rightarrow> nat list" where
  "variants a = (let l = (if 65 \<le> a \<and> a \<le> 90 then a + 32 else a) in
     if 97 \<le> l \<and> l \<le> 122
     then [l, l - 32] @ (if l = 105 then [304, 305] else if l = 115 then [383]
                         else if l = 107 then [8490] else [])
     else [a])"

definition lit_match :: "bool \<Rightarrow> char \<Rightarrow> nat \<Rightarrow> bool" where
  "lit_match ic a c = (if ic then c \<in> set (variants (of_char a)) else c = of_char a)"

fun cls_match :: "bool \<Rightarrow> bool \<Rightarrow> cls \<Rightarrow> nat \<Rightarrow> bool" where
  "cls_match ic da (Lit a) c = lit_match ic a c"
| "cls_match ic da (AnyOf as) c = list_ex (\<lambda>a. lit_match ic a c) as"
| "cls_match ic da (NotOf as) c = (\<not> list_ex (\<lambda>a. lit_match ic a c) as)"
| "cls_match ic da Space c = is_space c"
| "cls_match ic da Dot c = (if da then True else c \<noteq> 10)"

text \<open>
  \<open>rmatch ic da rs s gs g\<close> matches the atoms \<open>rs\<close> at the start of \<open>s\<close>. \<open>ic\<close> and \<open>da\<close> are the
  flags \<open>IGNORECASE\<close> and \<open>DOTALL\<close>, \<open>gs\<close> is the input as it was where the group opened and
  \<open>g\<close> the text of the group. The result is the group's text and the unread input.
\<close>

fun rmatch :: "bool \<Rightarrow> bool \<Rightarrow> atom list \<Rightarrow> ustr \<Rightarrow> ustr \<Rightarrow> ustr \<Rightarrow> (ustr \<times> ustr) option" where
  "rmatch ic da [] s gs g = Some (g, s)"
| "rmatch ic da (One k # rs) s gs g =
     (case s of [] \<Rightarrow> None
      | c # cs \<Rightarrow> if cls_match ic da k c then rmatch ic da rs cs gs g else None)"
| "rmatch ic da (GroupOpen # rs) s gs g = rmatch ic da rs s s g"
| "rmatch ic da (GroupClose # rs) s gs g =
     rmatch ic da rs s gs (take (length gs - length s) gs)"
| "rmatch ic da (Rep k (Suc n) gr # rs) s gs g =
     (case s of [] \<Rightarrow> None
      | c # cs \<Rightarrow> if cls_match ic da k c then rmatch ic da (Rep k n gr # rs) cs gs g else None)"
| "rmatch ic da (Rep k 0 Greedy # rs) s gs g =
     (case (case s of [] \<Rightarrow> None
            | c # cs \<Rightarrow> if cls_match ic da k c
                       then rmatch ic da (Rep k 0 Greedy # rs) cs gs g else None) of
        Some r \<Rightarrow> Some r
      | None \<Rightarrow> rmatch ic da rs s gs g)"
| "rmatch ic da (Rep k 0 Lazy # rs) s gs g =
     (case rmatch ic da rs s gs g of
        Some r \<Rightarrow> Some r
      | None \<Rightarrow> (case s of [] \<Rightarrow> None
                 | c # cs \<Rightarrow> if cls_match ic da k c
                            then rmatch ic da (Rep k 0 Lazy # rs) cs gs g else None))"

record regex =
  ignorecase :: bool
  dotall :: bool
  atoms :: "atom list"

definition lits :: "string \<Rightarrow> atom list" where
  "lits s = map (\<lambda>a. One (Lit a)) s"

text \<open>A match attempt at the start of \<open>s\<close>: \<open>(group 1, unread input)\<close>.\<close>

definition re_match :: "regex \<Rightarrow> ustr \<Rightarrow> (ustr \<times> ustr) option" where
  "re_match r s = rmatch (ignorecase r) (dotall r) (atoms r) s [] []"

text \<open>\<open>pattern.search(s)\<close>: the leftmost match, as \<open>(group 0, group 1)\<close>.\<close>

fun re_search :: "regex \<Rightarrow> ustr \<Rightarrow> (ustr \<times> ustr) option" where
  "re_search r [] =
     (case re_match r [] of
        Some (g, rest) \<Rightarrow> Some ([], g)
      | None \<Rightarrow> None)"
| "re_search r (c # cs) =
     (case re_match r (c # cs) of
        Some (g, rest) \<Rightarrow> Some (take (length (c # cs) - length rest) (c # cs), g)
      | None \<Rightarrow> re_search r cs)"

text \<open>
  \<open>pattern.sub(repl, s)\<close> with \<open>repl\<close> a function of the match \<open>(group 0, group 1)\<close>: the
  non-overlapping matches, found from left to right, are replaced. After an empty match the
  next character is copied and the scan goes on behind it.
\<close>

function re_sub :: "regex \<Rightarrow> (ustr \<times> ustr \<Rightarrow> ustr) \<Rightarrow> ustr \<Rightarrow> ustr" where
  "re_sub r f [] =
     (case re_match r [] of
        Some (g, rest) \<Rightarrow> f ([], g)
      | None \<Rightarrow> [])"
| "re_sub r f (c # cs) =
     (case re_match r (c # cs) of
        Some (g, rest) \<Rightarrow>
          if length rest < length (c # cs)
          then f (take (length (c # cs) - length rest) (c # cs), g) @ re_sub r f rest
          else f ([], g) @ c # re_sub r f cs
      | None \<Rightarrow> c # re_sub r f cs)"
  by pat_completeness auto
termination
  by (relation "measure (\<lambda>(r, f, s). length s)") auto

section \<open>The patterns of the converter\<close>

text \<open>\<open>r'<%@\s*Page\s+[^%]*%>'\<close> with \<open>re.IGNORECASE | re.DOTALL\<close>.\<close>

definition PAGE_DIRECTIVE_RE :: regex where
  \<open>PAGE_DIRECTIVE_RE = \<lparr>ignorecase = True, dotall = True,
     atoms = lits ''<%@'' @ [Rep Space 0 Greedy] @ lits ''Page'' @
             [Rep Space 1 Greedy, Rep (NotOf ''%'') 0 Greedy] @ lits ''%>''\<rparr>\<close>

text \<open>\<open>r'Title\s*=\s*"([^"]+)"'\<close> with \<open>re.IGNORECASE\<close>.\<close>

definition TITLE_RE :: regex where
  \<open>TITLE_RE = \<lparr>ignorecase = True, dotall = False,
     atoms = lits ''Title'' @ [Rep Space 0 Greedy] @ lits ''='' @ [Rep Space 0 Greedy] @
             lits ''"'' @ [GroupOpen, Rep (NotOf ''"'') 1 Greedy, GroupClose] @ lits ''"''\<rparr>\<close>

text \<open>\<open>r'<asp:Content[^>]*>'\<close> and \<open>r'</asp:Content>'\<close>, both with \<open>re.IGNORECASE\<close>.\<close>

definition ASP_CONTENT_START_RE :: regex where
  \<open>ASP_CONTENT_START_RE = \<lparr>ignorecase = True, dotall = False,
     atoms = lits ''<asp:Content'' @ [Rep (NotOf ''>'') 0 Greedy] @ lits ''>''\<rparr>\<close>

definition ASP_CONTENT_END_RE :: regex where
  \<open>ASP_CONTENT_END_RE = \<lparr>ignorecase = True, dotall = False,
     atoms = lits ''</asp:Content>''\<rparr>\<close>

text \<open>
  The banner pattern, written with \<open>re.VERBOSE\<close> (the white space of the pattern text is not
  part of the pattern) and \<open>re.IGNORECASE | re.DOTALL\<close>:
  \<open><%\s*[-]{3,}\s*%>\s*\<close> \<open><%\s*--\s*(.*?)\s*--\s*%>\s*\<close> \<open><%\s*[-]{3,}\s*%>\<close>.
\<close>

definition THREE_LINE_HEADER_RE :: regex where
  \<open>THREE_LINE_HEADER_RE = \<lparr>ignorecase = True, dotall = True,
     atoms =
       lits ''<%'' @ [Rep Space 0 Greedy, Rep (AnyOf ''-'') 3 Greedy, Rep Space 0 Greedy] @
       lits ''%>'' @ [Rep Space 0 Greedy] @
       lits ''<%'' @ [Rep Space 0 Greedy] @ lits ''--'' @ [Rep Space 0 Greedy] @
       [GroupOpen, Rep Dot 0 Lazy, GroupClose] @
       [Rep Space 0 Greedy] @ lits ''--'' @ [Rep Space 0 Greedy] @
       lits ''%>'' @ [Rep Space 0 Greedy] @
       lits ''<%'' @ [Rep Space 0 Greedy, Rep (AnyOf ''-'') 3 Greedy, Rep Space 0 Greedy] @
       lits ''%>''\<rparr>\<close>

text \<open>\<open>r'<%--.*?--%>'\<close> and \<open>r'<%[^@].*?%>'\<close>, both with \<open>re.DOTALL\<close>.\<close>

definition ASP_COMMENT_RE :: regex where
  \<open>ASP_COMMENT_RE = \<lparr>ignorecase = False, dotall = True,
     atoms = lits ''<%--'' @ [Rep Dot 0 Lazy] @ lits ''--%>''\<rparr>\<close>

definition ASP_SERVER_BLOCK_RE :: regex where
  \<open>ASP_SERVER_BLOCK_RE = \<lparr>ignorecase = False, dotall = True,
     atoms = lits ''<%'' @ [One (NotOf ''@''), Rep Dot 0 Lazy] @ lits ''%>''\<rparr>\<close>

section \<open>The fixed head\<close>

definition COMMON_HEAD_TEMPLATE :: ustr where
  \<open>COMMON_HEAD_TEMPLATE = str (
     ''<head>\<newline>'' @
     ''    <meta charset="UTF-8">\<newline>'' @
     ''    <title>{{TITLE}}</title>\<newline>'' @
     ''\<newline>'' @
     ''    <!-- CSS -->\<newline>'' @
     ''    <link rel="stylesheet" href="Content/jquery-ui.min.css">\<newline>'' @
     ''    <link rel="stylesheet" href="Content/tabulator/tabulator.min.css">\<newline>'' @
     ''\<newline>'' @
     ''    <!-- JS base -->\<newline>'' @
     ''    <script src="Scripts/jquery-3.7.1.min.js"></script>\<newline>'' @
     ''    <script src="Scripts/jquery-ui.min.js"></script>\<newline>'' @
     ''\<newline>'' @
     ''    <!-- FontAwesome -->\<newline>'' @
     ''    <script src="Scripts/FontAwesome/fontawesome.min.js"></script>\<newline>'' @
     ''    <script src="Scripts/FontAwesome/solid.min.js"></script>\<newline>'' @
     ''    <script src="Scripts/FontAwesome/regular.min.js"></script>\<newline>'' @
     ''\<newline>'' @
     ''    <!-- App common -->\<newline>'' @
     ''    <script src="Scripts/mvp.js"></script>\<newline>'' @
     ''</head>\<newline>'')\<close>

section \<open>Conversion of one text\<close>

text \<open>
  The steps of \<open>convert_aspx_to_html\<close> between reading the input file and writing the output
  file, each under the name of the variable it assigns.
\<close>

definition title :: "ustr \<Rightarrow> ustr" where
  "title text =
     (case re_search PAGE_DIRECTIVE_RE text of
        None \<Rightarrow> str ''Untitled Page''
      | Some page_match \<Rightarrow>
          (case re_search TITLE_RE (fst page_match) of
             None \<Rightarrow> str ''Untitled Page''
           | Some title_match \<Rightarrow> snd title_match))"

definition header_replacer :: "ustr \<times> ustr \<Rightarrow> ustr" where
  "header_replacer m = str ''<!-- ----------- '' @ strip (snd m) @ str '' ----------- -->''"

text \<open>The replacement string \<open>""\<close> of the other substitutions.\<close>

definition empty_repl :: "ustr \<times> ustr \<Rightarrow> ustr" where
  "empty_repl m = []"

definition rewrite :: "ustr \<Rightarrow> ustr" where
  "rewrite text =
     re_sub ASP_SERVER_BLOCK_RE empty_repl
       (re_sub ASP_COMMENT_RE empty_repl
         (re_sub ASP_CONTENT_END_RE empty_repl
           (re_sub ASP_CONTENT_START_RE empty_repl
             (re_sub THREE_LINE_HEADER_RE header_replacer
               (re_sub PAGE_DIRECTIVE_RE empty_repl text)))))"

definition body :: "ustr \<Rightarrow> ustr" where
  "body text = strip (rewrite text)"

definition head :: "ustr \<Rightarrow> ustr" where
  "head text = replace_str (str ''{{TITLE}}'') (title text) COMMON_HEAD_TEMPLATE"

definition html :: "ustr \<Rightarrow> ustr" where
  \<open>html text =
     str (''<!DOCTYPE html>\<newline>'' @ ''<html lang="ja">\<newline>'') @
     head text @
     str (''\<newline>'' @ ''<body>\<newline>'' @ ''\<newline>'') @
     body text @
     str (''\<newline>'' @ ''\<newline>'' @ ''</body>\<newline>'' @ ''</html>\<newline>'')\<close>

section \<open>Files and the command line\<close>

text \<open>
  What \<open>main\<close> sees of the file system: whether the input path exists and is a directory,
  and the files that \<open>input_dir.glob("*.aspx")\<close> yields, each with its name, its stem and
  the text read from it. What it does is a list of effects, in order. Failures of the
  operating system inside \<open>mkdir\<close>, \<open>glob\<close>, \<open>read_text\<close> and \<open>write_text\<close> are not modelled.
\<close>

record aspx_file =
  file_name :: ustr
  file_stem :: ustr
  file_text :: ustr

record input_dir =
  dir_exists :: bool
  dir_is_dir :: bool
  aspx_files :: "aspx_file list"

datatype message = Converted ustr ustr | No_aspx_files

datatype effect = Mkdir | Write_text ustr ustr | Print message

datatype error = ValueError

definition convert_aspx_to_html :: "aspx_file \<Rightarrow> effect list" where
  "convert_aspx_to_html f =
     [Write_text (file_stem f @ str ''.html'') (html (file_text f)),
      Print (Converted (file_name f) (file_stem f @ str ''.html''))]"

text \<open>The effects of a run and the exception that ended it, if any.\<close>

definition main :: "input_dir \<Rightarrow> effect list \<times> error option" where
  "main d =
     (if \<not> dir_exists d \<or> \<not> dir_is_dir d then ([], Some ValueError)
      else if aspx_files d = [] then ([Mkdir, Print No_aspx_files], None)
      else (Mkdir # concat (map convert_aspx_to_html (aspx_files d)), None))"

section \<open>Constants of the statements\<close>

text \<open>The head template before and after its slot \<open>{{TITLE}}\<close>.\<close>

definition head_before_title :: ustr where
  \<open>head_before_title = str (
     ''<head>\<newline>'' @
     ''    <meta charset="UTF-8">\<newline>'' @
     ''    <title>'')\<close>

definition head_after_title :: ustr where
  \<open>head_after_title = str (
     ''</title>\<newline>'' @
     ''\<newline>'' @
     ''    <!-- CSS -->\<newline>'' @
     ''    <link rel="stylesheet" href="Content/jquery-ui.min.css">\<newline>'' @
     ''    <link rel="stylesheet" href="Content/tabulator/tabulator.min.css">\<newline>'' @
     ''\<newline>'' @
     ''    <!-- JS base -->\<newline>'' @
     ''    <script src="Scripts/jquery-3.7.1.min.js"></script>\<newline>'' @
     ''    <script src="Scripts/jquery-ui.min.js"></script>\<newline>'' @
     ''\<newline>'' @
     ''    <!-- FontAwesome -->\<newline>'' @
     ''    <script src="Scripts/FontAwesome/fontawesome.min.js"></script>\<newline>'' @
     ''    <script src="Scripts/FontAwesome/solid.min.js"></script>\<newline>'' @
     ''    <script src="Scripts/FontAwesome/regular.min.js"></script>\<newline>'' @
     ''\<newline>'' @
     ''    <!-- App common -->\<newline>'' @
     ''    <script src="Scripts/mvp.js"></script>\<newline>'' @
     ''</head>\<newline>'')\<close>

text \<open>The lines of a text: what \<open>s.split("\\n")\<close> yields, the line breaks left out.\<close>

fun lines_of :: "ustr \<Rightarrow> ustr list" where
  "lines_of [] = [[]]"
| "lines_of (c # cs) =
     (if c = 10 then [] # lines_of cs
      else (case lines_of cs of [] \<Rightarrow> [[c]] | l # ls \<Rightarrow> (c # l) # ls))"

text \<open>
  \<open>ci w u\<close>: the text \<open>u\<close> is the word \<open>w\<close> in some mix of upper and lower case, as a pattern
  with \<open>re.IGNORECASE\<close> accepts it.
\<close>

definition ci :: "string \<Rightarrow> ustr \<Rightarrow> bool" where
  "ci w u = list_all2 (lit_match True) w u"

text \<open>
  \<open>no_match_before r pre s\<close>: in the text \<open>pre @ s\<close> the pattern \<open>r\<close> matches at no position
  of \<open>pre\<close>.
\<close>

fun no_match_before :: "regex \<Rightarrow> ustr \<Rightarrow> ustr \<Rightarrow> bool" where
  "no_match_before r [] s = True"
| "no_match_before r (c # cs) s = (re_match r (c # cs @ s) = None \<and> no_match_before r cs s)"

section \<open>Evaluation\<close>

text \<open>The equations of the matcher, by the first character of the input.\<close>

lemma rmatch_One_Nil [simp]: "rmatch ic da (One k # rs) [] gs g = None"
  by simp

lemma rmatch_One_Cons [simp]:
  "rmatch ic da (One k # rs) (c # cs) gs g =
     (if cls_match ic da k c then rmatch ic da rs cs gs g else None)"
  by simp

lemma rmatch_Suc_Nil [simp]: "rmatch ic da (Rep k (Suc n) gr # rs) [] gs g = None"
  by simp

lemma rmatch_Suc_Cons [simp]:
  "rmatch ic da (Rep k (Suc n) gr # rs) (c # cs) gs g =
     (if cls_match ic da k c then rmatch ic da (Rep k n gr # rs) cs gs g else None)"
  by simp

lemma rmatch_numeral_Nil [simp]: "rmatch ic da (Rep k (numeral n) gr # rs) [] gs g = None"
  by (simp add: numeral_eq_Suc)

lemma rmatch_numeral_Cons [simp]:
  "rmatch ic da (Rep k (numeral n) gr # rs) (c # cs) gs g =
     (if cls_match ic da k c then rmatch ic da (Rep k (pred_numeral n) gr # rs) cs gs g
      else None)"
  by (simp add: numeral_eq_Suc)

lemma rmatch_Greedy_Nil [simp]:
  "rmatch ic da (Rep k 0 Greedy # rs) [] gs g = rmatch ic da rs [] gs g"
  by simp

lemma rmatch_Greedy_Cons [simp]:
  "rmatch ic da (Rep k 0 Greedy # rs) (c # cs) gs g =
     (if cls_match ic da k c
      then (case rmatch ic da (Rep k 0 Greedy # rs) cs gs g of
              Some r \<Rightarrow> Some r
            | None \<Rightarrow> rmatch ic da rs (c # cs) gs g)
      else rmatch ic da rs (c # cs) gs g)"
  by simp

lemma rmatch_Lazy_Nil [simp]:
  "rmatch ic da (Rep k 0 Lazy # rs) [] gs g = rmatch ic da rs [] gs g"
  by (simp split: option.split)

lemma rmatch_Lazy_Cons [simp]:
  "rmatch ic da (Rep k 0 Lazy # rs) (c # cs) gs g =
     (case rmatch ic da rs (c # cs) gs g of
        Some r \<Rightarrow> Some r
      | None \<Rightarrow> if cls_match ic da k c then rmatch ic da (Rep k 0 Lazy # rs) cs gs g
                else None)"
  by (simp split: option.split)

declare rmatch.simps(2,5,6,7) [simp del]

lemmas patterns =
  PAGE_DIRECTIVE_RE_def TITLE_RE_def ASP_CONTENT_START_RE_def ASP_CONTENT_END_RE_def
  THREE_LINE_HEADER_RE_def ASP_COMMENT_RE_def ASP_SERVER_BLOCK_RE_def

lemmas evaluation =
  str_def lits_def lit_match_def variants_def is_space_def strip_def re_match_def patterns
  title_def header_replacer_def empty_repl_def rewrite_def body_def

section \<open>Greedy repetitions\<close>

lemma rmatch_greedy_span:
  assumes "n \<le> length (takeWhile (cls_match ic da k) s)"
    and "rmatch ic da rs (dropWhile (cls_match ic da k) s) gs g = Some r"
  shows "rmatch ic da (Rep k n Greedy # rs) s gs g = Some r"
  using assms
proof (induction s arbitrary: n)
  case Nil
  then show ?case by simp
next
  case (Cons c cs)
  show ?case
  proof (cases n)
    case 0
    with Cons show ?thesis by (auto split: if_splits)
  next
    case (Suc m)
    with Cons show ?thesis by (auto split: if_splits)
  qed
qed

lemma rmatch_greedy_exact:
  assumes "\<And>c cs. cls_match ic da k c \<Longrightarrow> rmatch ic da rs (c # cs) gs g = None"
  shows "rmatch ic da (Rep k n Greedy # rs) s gs g =
     (if n \<le> length (takeWhile (cls_match ic da k) s)
      then rmatch ic da rs (dropWhile (cls_match ic da k) s) gs g else None)"
proof (induction s arbitrary: n)
  case Nil
  then show ?case by (cases n) simp_all
next
  case (Cons c cs)
  show ?case
  proof (cases n)
    case 0
    with Cons assms show ?thesis by (simp split: option.split)
  next
    case (Suc m)
    with Cons show ?thesis by simp
  qed
qed

lemma rmatch_greedy_absorbed:
  assumes "\<And>c cs. cls_match ic da k c \<Longrightarrow>
             rmatch ic da rs (c # cs) gs g = rmatch ic da rs cs gs g"
  shows "rmatch ic da (Rep k n Greedy # rs) s gs g =
     (if n \<le> length (takeWhile (cls_match ic da k) s)
      then rmatch ic da rs s gs g else None)"
proof (induction s arbitrary: n)
  case Nil
  then show ?case by (cases n) simp_all
next
  case (Cons c cs)
  show ?case
  proof (cases n)
    case 0
    with Cons assms show ?thesis by (simp split: option.split)
  next
    case (Suc m)
    with Cons assms show ?thesis by simp
  qed
qed


section \<open>Character classes\<close>

lemma cls_match_Space [simp]: "cls_match ic da Space = is_space"
  by (rule ext) simp

lemma lit_match_self [simp]: "lit_match ic a (of_char a)"
  by (simp add: lit_match_def variants_def Let_def)

lemma lit_match_plain:
  "\<not> (65 \<le> (of_char a :: nat) \<and> (of_char a :: nat) \<le> 90) \<Longrightarrow>
   \<not> (97 \<le> (of_char a :: nat) \<and> (of_char a :: nat) \<le> 122) \<Longrightarrow>
   lit_match ic a c = (c = of_char a)"
  by (auto simp add: lit_match_def variants_def Let_def)

lemma lit_match_letter_not_space:
  "lit_match ic a c \<Longrightarrow> 65 \<le> (of_char a :: nat) \<Longrightarrow> (of_char a :: nat) \<le> 122 \<Longrightarrow>
   \<not> is_space c"
  by (auto simp add: lit_match_def variants_def Let_def is_space_def split: if_splits)

lemma lit_match_letter_plain:
  "lit_match ic a c \<Longrightarrow> 65 \<le> (of_char a :: nat) \<Longrightarrow> (of_char a :: nat) \<le> 122 \<Longrightarrow>
   c \<noteq> 37 \<and> c \<noteq> 34 \<and> c \<noteq> 60 \<and> c \<noteq> 62"
  by (auto simp add: lit_match_def variants_def Let_def split: if_splits)

lemma space_plain: "is_space c \<Longrightarrow> c \<noteq> 37 \<and> c \<noteq> 34 \<and> c \<noteq> 60 \<and> c \<noteq> 62 \<and> c \<noteq> 61 \<and> c \<noteq> 45"
  by (auto simp add: is_space_def)

lemma cls_match_NotOf1 [simp]:
  "cls_match ic da (NotOf [a]) = (\<lambda>c. \<not> lit_match ic a c)"
  by (rule ext) simp

lemma dropWhile_neq [simp]: "x \<notin> set a \<Longrightarrow> dropWhile (\<lambda>c. c \<noteq> x) (a @ x # s) = x # s"
  by (induction a) auto

lemma takeWhile_neq [simp]: "x \<notin> set a \<Longrightarrow> takeWhile (\<lambda>c. c \<noteq> x) (a @ x # s) = a"
  by (induction a) auto

section \<open>Literal runs\<close>

lemma rmatch_lits:
  "list_all2 (lit_match ic) w u \<Longrightarrow>
   rmatch ic da (lits w @ rs) (u @ s) gs g = rmatch ic da rs s gs g"
  by (induction w u rule: list_all2_induct) (simp_all add: lits_def)

lemma list_all2_str [simp]: "list_all2 (lit_match ic) w (str w)"
  by (induction w) (simp_all add: str_def)

lemma rmatch_lits_str:
  "rmatch ic da (lits w @ rs) (str w @ s) gs g = rmatch ic da rs s gs g"
  by (rule rmatch_lits) simp

lemma rmatch_lits_ci:
  "ci w u \<Longrightarrow> rmatch True da (lits w @ rs) (u @ s) gs g = rmatch True da rs s gs g"
  unfolding ci_def by (rule rmatch_lits)

section \<open>Searching and substituting\<close>


lemma re_sub_skip:
  "no_match_before r pre s \<Longrightarrow> re_sub r f (pre @ s) = pre @ re_sub r f s"
  by (induction pre) simp_all

lemma re_search_here:
  "re_match r s = Some (g, rest) \<Longrightarrow>
   re_search r s = Some (take (length s - length rest) s, g)"
  by (cases s) simp_all

lemma re_sub_here:
  "re_match r s = Some (g, rest) \<Longrightarrow> length rest < length s \<Longrightarrow>
   re_sub r f s = f (take (length s - length rest) s, g) @ re_sub r f rest"
  by (cases s) simp_all

lemma no_match_before_append:
  "no_match_before r (a @ b) s = (no_match_before r a (b @ s) \<and> no_match_before r b s)"
  by (induction a) auto

section \<open>Page directives and title attributes\<close>

lemma page_directive_match:
  assumes w1: "\<forall>c\<in>set w1. is_space c" and pw: "ci ''Page'' pw"
    and w2: "w2 \<noteq> []" "\<forall>c\<in>set w2. is_space c" and attrs: "37 \<notin> set attrs"
  shows "re_match PAGE_DIRECTIVE_RE
           (str ''<%@'' @ w1 @ pw @ w2 @ attrs @ str ''%>'' @ post) = Some ([], post)"
proof -
  let ?end = "str ''%>'' @ post"
  have e: "?end = 37 # 62 # post"
    by (simp add: str_def)
  obtain p pw' where p: "pw = p # pw'" "lit_match True CHR ''P'' p"
    using pw by (auto simp add: ci_def list_all2_Cons1)
  have np: "\<not> is_space p"
    using p(2) by (rule lit_match_letter_not_space) simp_all
  have 1: "rmatch True True (lits ''%>'') ?end [] [] = Some ([], post)"
    using rmatch_lits_str [of True True "''%>''" "[]" post "[]" "[]"] by simp
  have 2: "rmatch True True (Rep (NotOf ''%'') 0 Greedy # lits ''%>'') (a @ ?end) [] [] =
      Some ([], post)" if "37 \<notin> set a" for a
  proof (rule rmatch_greedy_span)
    show "0 \<le> length (takeWhile (cls_match True True (NotOf ''%'')) (a @ ?end))"
      by simp
    have "dropWhile (cls_match True True (NotOf ''%'')) (a @ ?end) = ?end"
      using that by (simp add: e lit_match_plain)
    with 1 show "rmatch True True (lits ''%>'')
        (dropWhile (cls_match True True (NotOf ''%'')) (a @ ?end)) [] [] = Some ([], post)"
      by simp
  qed
  have 3: "rmatch True True (Rep Space 1 Greedy # Rep (NotOf ''%'') 0 Greedy # lits ''%>'')
      (w2 @ attrs @ ?end) [] [] = Some ([], post)"
  proof (rule rmatch_greedy_span)
    have "takeWhile is_space (w2 @ attrs @ ?end) = w2 @ takeWhile is_space (attrs @ ?end)"
      using w2(2) by simp
    with w2(1) show "1 \<le> length (takeWhile (cls_match True True Space) (w2 @ attrs @ ?end))"
      by (cases w2) simp_all
    have "\<not> is_space 37"
      by (simp add: is_space_def)
    then have "dropWhile is_space (w2 @ attrs @ ?end) = dropWhile is_space attrs @ ?end"
      using w2(2) by (simp add: e dropWhile_append3)
    moreover have "37 \<notin> set (dropWhile is_space attrs)"
      using attrs by (auto dest: set_dropWhileD)
    ultimately show "rmatch True True (Rep (NotOf ''%'') 0 Greedy # lits ''%>'')
        (dropWhile (cls_match True True Space) (w2 @ attrs @ ?end)) [] [] = Some ([], post)"
      using 2 by simp
  qed
  have 4: "rmatch True True
      (Rep Space 0 Greedy # lits ''Page'' @
        [Rep Space 1 Greedy, Rep (NotOf ''%'') 0 Greedy] @ lits ''%>'')
      (w1 @ pw @ w2 @ attrs @ ?end) [] [] = Some ([], post)"
  proof (rule rmatch_greedy_span)
    show "0 \<le> length (takeWhile (cls_match True True Space) (w1 @ pw @ w2 @ attrs @ ?end))"
      by simp
    have "dropWhile is_space (w1 @ pw @ w2 @ attrs @ ?end) = pw @ w2 @ attrs @ ?end"
      using w1 np by (simp add: p(1))
    with 3 show "rmatch True True
        (lits ''Page'' @ [Rep Space 1 Greedy, Rep (NotOf ''%'') 0 Greedy] @ lits ''%>'')
        (dropWhile (cls_match True True Space) (w1 @ pw @ w2 @ attrs @ ?end)) [] [] =
        Some ([], post)"
      using pw by (simp add: rmatch_lits_ci)
  qed
  show ?thesis
    using 4 by (simp add: re_match_def PAGE_DIRECTIVE_RE_def rmatch_lits_str)
qed



section \<open>What a match leaves unread\<close>

lemma rmatch_rest_length:
  "rmatch ic da rs s gs g = Some (g', r) \<Longrightarrow> length r \<le> length s"
proof (induction ic da rs s gs g rule: rmatch.induct)
  case (2 ic da k rs s gs g)
  then show ?case
    by (cases s) (fastforce split: if_splits)+
next
  case (5 ic da k n gr rs s gs g)
  then show ?case
    by (cases s) (fastforce split: if_splits)+
next
  case (6 ic da k rs s gs g)
  then show ?case
    by (cases s) (fastforce split: if_splits option.splits)+
next
  case (7 ic da k rs s gs g)
  then show ?case
    by (cases s) (fastforce split: if_splits option.splits)+
qed simp_all

lemma re_match_rest_length: "re_match r s = Some (g, rest) \<Longrightarrow> length rest \<le> length s"
  unfolding re_match_def by (rule rmatch_rest_length)


section \<open>A directive start ends every earlier directive match\<close>

lemma local_One:
  assumes "\<not> cls_match ic da k y"
    and "\<And>x gs g. rmatch ic da rs (x @ y # ys) gs g =
           map_option (\<lambda>(g', r). (g', r @ y # ys)) (rmatch ic da rs x gs g)"
  shows "rmatch ic da (One k # rs) (x @ y # ys) gs g =
           map_option (\<lambda>(g', r). (g', r @ y # ys)) (rmatch ic da (One k # rs) x gs g)"
  by (cases x) (simp_all add: assms)

lemma local_Rep:
  assumes follow: "\<And>c cs gs g. cls_match ic da k c \<Longrightarrow> rmatch ic da rs (c # cs) gs g = None"
    and y: "\<not> cls_match ic da k y"
    and rs: "\<And>x gs g. rmatch ic da rs (x @ y # ys) gs g =
           map_option (\<lambda>(g', r). (g', r @ y # ys)) (rmatch ic da rs x gs g)"
  shows "rmatch ic da (Rep k n Greedy # rs) (x @ y # ys) gs g =
           map_option (\<lambda>(g', r). (g', r @ y # ys)) (rmatch ic da (Rep k n Greedy # rs) x gs g)"
proof -
  have "takeWhile (cls_match ic da k) (x @ y # ys) = takeWhile (cls_match ic da k) x"
    using y by (rule takeWhile_tail)
  moreover have "dropWhile (cls_match ic da k) (x @ y # ys) =
      dropWhile (cls_match ic da k) x @ y # ys"
    using y by (rule dropWhile_append3)
  ultimately show ?thesis
    by (simp add: rmatch_greedy_exact [where rs = rs, OF follow] rs)
qed

lemma page_tail_exact:
  "rmatch True True (Rep Space (Suc 0) Greedy # Rep (NotOf ''%'') 0 Greedy # lits ''%>'') s gs g =
     (if Suc 0 \<le> length (takeWhile is_space s)
      then rmatch True True (lits ''%>'') (dropWhile (\<lambda>c. c \<noteq> 37) s) gs g else None)"
proof -
  have R: "rmatch True True (Rep (NotOf ''%'') 0 Greedy # lits ''%>'') t gs g =
      rmatch True True (lits ''%>'') (dropWhile (\<lambda>c. c \<noteq> 37) t) gs g" for t
  proof -
    have "rmatch True True (lits ''%>'') (c # cs) gs g = None"
      if "cls_match True True (NotOf ''%'') c" for c cs gs g
      using that by (simp add: lits_def lit_match_plain)
    from rmatch_greedy_exact [where rs = "lits ''%>''" and k = "NotOf ''%''", OF this]
    show ?thesis
      by (simp add: lit_match_plain)
  qed
  have "rmatch True True (Rep (NotOf ''%'') 0 Greedy # lits ''%>'') (c # cs) gs g =
      rmatch True True (Rep (NotOf ''%'') 0 Greedy # lits ''%>'') cs gs g"
    if "cls_match True True Space c" for c cs
    using that space_plain [of c] by (simp only: R) simp
  from rmatch_greedy_absorbed [where k = Space and ic = True and da = True, OF this]
  show ?thesis
    by (simp add: R)
qed

lemma page_tail_local:
  "rmatch True True (Rep Space (Suc 0) Greedy # Rep (NotOf ''%'') 0 Greedy # lits ''%>'')
     (x @ 60 # 37 # 64 # z) gs g =
   map_option (\<lambda>(g', r). (g', r @ 60 # 37 # 64 # z))
     (rmatch True True (Rep Space (Suc 0) Greedy # Rep (NotOf ''%'') 0 Greedy # lits ''%>'') x gs g)"
proof -
  let ?Y = "60 # 37 # 64 # z"
  have sp: "takeWhile is_space (x @ ?Y) = takeWhile is_space x"
    by (rule takeWhile_tail) (simp add: is_space_def)
  have e: "rmatch True True (lits ''%>'') (u @ ?Y) gs g =
      map_option (\<lambda>(g', r). (g', r @ ?Y)) (rmatch True True (lits ''%>'') u gs g)" for u gs g
    unfolding lits_def list.map
    by (rule local_One, simp add: lit_match_plain, rule local_One, simp add: lit_match_plain)
      simp
  show ?thesis
  proof (cases "37 \<in> set x")
    case True
    then have "dropWhile (\<lambda>c. c \<noteq> 37) (x @ ?Y) = dropWhile (\<lambda>c. c \<noteq> 37) x @ ?Y"
      by (simp add: dropWhile_append1)
    then show ?thesis
      by (simp add: page_tail_exact sp e)
  next
    case False
    have d1: "dropWhile (\<lambda>c. c \<noteq> 37) (x @ 60 # 37 # 64 # z) = 37 # 64 # z"
      using dropWhile_neq [of 37 "x @ [60]" "64 # z"] False by simp
    have d2: "dropWhile (\<lambda>c. c \<noteq> 37) x = []"
      using False by auto
    show ?thesis
      unfolding page_tail_exact sp d1 d2 by (simp add: lits_def lit_match_plain)
  qed
qed

lemma page_barrier:
  assumes "x \<noteq> []"
  shows "re_match PAGE_DIRECTIVE_RE (x @ str ''<%@'' @ z) =
     map_option (\<lambda>(g, r). (g, r @ str ''<%@'' @ z)) (re_match PAGE_DIRECTIVE_RE x)"
proof -
  let ?Y = "60 # 37 # 64 # z"
  let ?tail = "Rep Space (Suc 0) Greedy # Rep (NotOf ''%'') 0 Greedy # lits ''%>''"
  have Y: "str ''<%@'' @ z = ?Y"
    by (simp add: str_def)
  have letter: "\<not> lit_match True a 60" if "65 \<le> (of_char a :: nat)" "(of_char a :: nat) \<le> 122" for a
    using lit_match_letter_plain [of True a 60] that by blast
  have w: "rmatch True True (lits ''Page'' @ ?tail) (u @ ?Y) gs g =
      map_option (\<lambda>(g', r). (g', r @ ?Y)) (rmatch True True (lits ''Page'' @ ?tail) u gs g)"
    for u gs g
    unfolding lits_def list.map append.simps
    by (rule local_One, simp add: letter)+ (rule page_tail_local [unfolded lits_def list.map])
  have follow: "rmatch True True (lits ''Page'' @ ?tail) (c # cs) gs g = None"
    if "cls_match True True Space c" for c cs gs g
    using that lit_match_letter_not_space [of True "CHR ''P''" c] by (auto simp add: lits_def)
  have s: "rmatch True True (Rep Space 0 Greedy # lits ''Page'' @ ?tail) (u @ ?Y) gs g =
      map_option (\<lambda>(g', r). (g', r @ ?Y))
        (rmatch True True (Rep Space 0 Greedy # lits ''Page'' @ ?tail) u gs g)" for u gs g
    by (rule local_Rep [OF follow]) (simp_all add: is_space_def, rule w)
  have a: "rmatch True True (lits ''%@'' @ Rep Space 0 Greedy # lits ''Page'' @ ?tail)
        (u @ ?Y) gs g =
      map_option (\<lambda>(g', r). (g', r @ ?Y))
        (rmatch True True (lits ''%@'' @ Rep Space 0 Greedy # lits ''Page'' @ ?tail) u gs g)"
    for u gs g
    unfolding lits_def [of "''%@''"] list.map append.simps
    by (rule local_One, simp add: lit_match_plain)+ (rule s)
  obtain c cs where x: "x = c # cs"
    using assms by (cases x) auto
  have "rmatch True True (lits ''<%@'' @ Rep Space 0 Greedy # lits ''Page'' @ ?tail)
        (c # cs @ ?Y) [] [] =
      map_option (\<lambda>(g', r). (g', r @ ?Y))
        (rmatch True True (lits ''<%@'' @ Rep Space 0 Greedy # lits ''Page'' @ ?tail)
          (c # cs) [] [])"
    using a [of cs "[]" "[]"] by (simp add: lits_def)
  then show ?thesis
    by (simp add: re_match_def PAGE_DIRECTIVE_RE_def Y x)
qed


section \<open>The first page directive\<close>

lemma take_prefix_eq: "n \<le> length xs \<Longrightarrow> take n (xs @ ys) = take n xs"
  by simp



lemma page_search_local:
  assumes w1: "\<forall>c\<in>set w1. is_space c" and pw: "ci ''Page'' pw"
    and w2: "w2 \<noteq> []" "\<forall>c\<in>set w2. is_space c" and attrs: "37 \<notin> set attrs"
  shows "re_search PAGE_DIRECTIVE_RE
           (pre @ (str ''<%@'' @ w1 @ pw @ w2 @ attrs @ str ''%>'') @ post) =
         re_search PAGE_DIRECTIVE_RE
           (pre @ (str ''<%@'' @ w1 @ pw @ w2 @ attrs @ str ''%>''))"
proof (induction pre)
  case Nil
  show ?case
    using re_search_here [OF page_directive_match [OF w1 pw w2 attrs, of post]]
      re_search_here [OF page_directive_match [OF w1 pw w2 attrs, of "[]"]] by simp
next
  case (Cons c cs)
  let ?z = "w1 @ pw @ w2 @ attrs @ str ''%>''"
  have b: "re_match PAGE_DIRECTIVE_RE (c # cs @ str ''<%@'' @ z) =
      map_option (\<lambda>(g, r). (g, r @ str ''<%@'' @ z)) (re_match PAGE_DIRECTIVE_RE (c # cs))"
    for z
    using page_barrier [of "c # cs" z] by simp
  show ?case
  proof (cases "re_match PAGE_DIRECTIVE_RE (c # cs)")
    case None
    with b [of "?z @ post"] b [of ?z] Cons.IH show ?thesis
      by simp
  next
    case (Some m)
    obtain g r where m: "m = (g, r)"
      by (cases m)
    from Some m have "length r \<le> length (c # cs)"
      by (auto dest: re_match_rest_length)
    then have "take (Suc (length cs) - length r) (c # cs @ u) =
        take (Suc (length cs) - length r) (c # cs)" for u
      using take_prefix_eq [of "Suc (length cs) - length r" "c # cs" u] by simp
    with b [of "?z @ post"] b [of ?z] Some m show ?thesis
      by simp
  qed
qed

section \<open>The head and the document\<close>

lemma template_split:
  "COMMON_HEAD_TEMPLATE = head_before_title @ str ''{{TITLE}}'' @ head_after_title"
  by (simp add: COMMON_HEAD_TEMPLATE_def head_before_title_def head_after_title_def str_def)

lemma fill_title:
  "replace_str (str ''{{TITLE}}'') t COMMON_HEAD_TEMPLATE =
     head_before_title @ t @ head_after_title"
  by (simp add: COMMON_HEAD_TEMPLATE_def head_before_title_def head_after_title_def str_def)

lemma lines_of_not_Nil [simp]: "lines_of s \<noteq> []"
  by (induction s) (auto split: list.splits)

lemma lines_of_plain:
  "10 \<notin> set a \<Longrightarrow>
   lines_of (a @ s) = (case lines_of s of [] \<Rightarrow> [a] | l # ls \<Rightarrow> (a @ l) # ls)"
  by (induction a) (auto split: list.splits)

lemma head_lines:
  assumes "10 \<notin> set t"
  shows "lines_of (head_before_title @ t @ head_after_title) =
     (lines_of COMMON_HEAD_TEMPLATE) [2 := str ''    <title>'' @ t @ str ''</title>'']"
  using assms
  by (simp add: COMMON_HEAD_TEMPLATE_def head_before_title_def head_after_title_def str_def
      lines_of_plain)

lemma title_with_line_break:
  \<open>title (str (''<%@ Page Title="a\<newline>'' @ ''b" %>'')) = str (''a\<newline>'' @ ''b'')\<close>
  by (simp add: evaluation)

lemma title_Home:
  \<open>title (str ''<%@ Page Title="Home" %>'') = str ''Home''\<close>
  by (simp add: evaluation)

text \<open>
  C3, as the claim states it, fails: the title pattern \<open>[^"]+\<close> accepts a line break, and
  then the head has a line the template does not have. For the input
  \<open><%@ Page Title="a\<close>, line break, \<open>b" %>\<close> the fourth line of the head is \<open>b</title>\<close>, where
  the template has an empty line.
\<close>

theorem head_lines_counterexample:
  \<open>lines_of (head (str (''<%@ Page Title="a\<newline>'' @ ''b" %>''))) ! 3 = str ''b</title>'' \<and>
   lines_of COMMON_HEAD_TEMPLATE ! 3 = []\<close>
proof -
  have \<open>lines_of (head_before_title @ str (''a\<newline>'' @ ''b'') @ head_after_title) ! 3 =
      str ''b</title>''\<close>
    by (simp add: head_before_title_def head_after_title_def str_def)
  moreover have "lines_of COMMON_HEAD_TEMPLATE ! 3 = []"
    by (simp add: COMMON_HEAD_TEMPLATE_def str_def)
  ultimately show ?thesis
    by (simp only: head_def fill_title title_with_line_break)
qed

text \<open>
  C3, amended. The head of every output is the template's text before the slot
  \<open>{{TITLE}}\<close>, the title, and the template's text after the slot: two heads differ at most
  in the text that fills the slot. When the title has no line break, the head has the
  template's lines, but for the third, which is the title element with the title in it.
\<close>

theorem head_fixed_but_slot:
  "head text1 = head_before_title @ title text1 @ head_after_title \<and>
   head text2 = head_before_title @ title text2 @ head_after_title \<and>
   COMMON_HEAD_TEMPLATE = head_before_title @ str ''{{TITLE}}'' @ head_after_title \<and>
   (10 \<notin> set (title text1) \<longrightarrow>
      lines_of (head text1) =
        (lines_of COMMON_HEAD_TEMPLATE)
          [2 := str ''    <title>'' @ title text1 @ str ''</title>''])"
proof -
  have h1: "head text1 = head_before_title @ title text1 @ head_after_title"
    by (simp add: head_def fill_title)
  have h2: "head text2 = head_before_title @ title text2 @ head_after_title"
    by (simp add: head_def fill_title)
  have "10 \<notin> set (title text1) \<longrightarrow>
      lines_of (head text1) =
        (lines_of COMMON_HEAD_TEMPLATE)
          [2 := str ''    <title>'' @ title text1 @ str ''</title>'']"
    using head_lines [of "title text1"] by (simp only: h1) blast
  with h1 h2 template_split show ?thesis
    by blast
qed

theorem head_fixed_but_slot_witness:
  \<open>10 \<notin> set (title (str ''<%@ Page Title="Home" %>'')) \<and>
   lines_of (head (str ''<%@ Page Title="Home" %>'')) =
     (lines_of COMMON_HEAD_TEMPLATE) [2 := str ''    <title>Home</title>'']\<close>
proof (rule conjI)
  show n: \<open>10 \<notin> set (title (str ''<%@ Page Title="Home" %>''))\<close>
    by (simp add: title_Home) (simp add: str_def)
  have e: \<open>str ''    <title>'' @ str ''Home'' @ str ''</title>'' = str ''    <title>Home</title>''\<close>
    by (simp add: str_def)
  from n head_fixed_but_slot [of \<open>str ''<%@ Page Title="Home" %>''\<close>]
  have \<open>lines_of (head (str ''<%@ Page Title="Home" %>'')) =
     (lines_of COMMON_HEAD_TEMPLATE)
       [2 := str ''    <title>'' @ title (str ''<%@ Page Title="Home" %>'') @ str ''</title>'']\<close>
    by blast
  then show \<open>lines_of (head (str ''<%@ Page Title="Home" %>'')) =
     (lines_of COMMON_HEAD_TEMPLATE) [2 := str ''    <title>Home</title>'']\<close>
    unfolding title_Home e .
qed

text \<open>
  C7. The output is the fixed text of the document with the title and the body put in as
  they are: no character of either is escaped, encoded or otherwise changed.
\<close>

theorem html_verbatim:
  \<open>html text =
     str (''<!DOCTYPE html>\<newline>'' @ ''<html lang="ja">\<newline>'') @
     head_before_title @ title text @ head_after_title @
     str (''\<newline>'' @ ''<body>\<newline>'' @ ''\<newline>'') @
     body text @
     str (''\<newline>'' @ ''\<newline>'' @ ''</body>\<newline>'' @ ''</html>\<newline>'')\<close>
  by (simp add: html_def head_def fill_title)

section \<open>The title\<close>



















section \<open>The driver\<close>

text \<open>
  C8. When the input path does not exist or is not a directory, the run ends with the error
  before any effect. When it is a directory without matching files, the run creates the
  output directory, prints the notice and ends without an error, and writes no file.
\<close>

theorem main_input_checks:
  "(\<not> dir_exists d \<or> \<not> dir_is_dir d \<longrightarrow> main d = ([], Some ValueError)) \<and>
   (dir_exists d \<and> dir_is_dir d \<and> aspx_files d = [] \<longrightarrow>
      main d = ([Mkdir, Print No_aspx_files], None))"
  by (simp add: main_def)

theorem main_input_checks_witness:
  "main \<lparr>dir_exists = False, dir_is_dir = False, aspx_files = []\<rparr> = ([], Some ValueError) \<and>
   main \<lparr>dir_exists = True, dir_is_dir = False, aspx_files = []\<rparr> = ([], Some ValueError) \<and>
   main \<lparr>dir_exists = True, dir_is_dir = True, aspx_files = []\<rparr> =
     ([Mkdir, Print No_aspx_files], None)"
  using main_input_checks [of "\<lparr>dir_exists = False, dir_is_dir = False, aspx_files = []\<rparr>"]
    main_input_checks [of "\<lparr>dir_exists = True, dir_is_dir = False, aspx_files = []\<rparr>"]
    main_input_checks [of "\<lparr>dir_exists = True, dir_is_dir = True, aspx_files = []\<rparr>"]
  by simp

end
